theory Spec2Isabelle
  imports Complex_Main "HOL-Library.Sublist"
begin

section \<open>Personal budget tracker: the model\<close>

text \<open>
  A shallow embedding of \<^verbatim>\<open>budget_tracker.py\<close>. Conventions:
  \<^item> amounts are Python numbers, modelled as exact reals (rounding of binary floats is
    outside the model);
  \<^item> Python strings are HOL strings, that is, sequences of code points below 256; in
    that range the regular expression class \<^verbatim>\<open>\d\<close> and \<^verbatim>\<open>int()\<close> recognise exactly the
    ten ASCII digits;
  \<^item> the wall clock \<^verbatim>\<open>datetime.datetime.now()\<close> is a parameter \<open>now\<close>;
  \<^item> an exception is a value \<open>Inl e\<close> of the sum type \<open>exn + 'a\<close>;
  \<^item> \<^verbatim>\<open>print\<close> appends a line to the returned output; an f-string is the list of its
    fragments, a number with a format specification staying symbolic.
\<close>

subsection \<open>Exceptions and printed lines\<close>

datatype exn = ValueError string | KeyError string | OverflowError string

datatype frag =
    S string        \<comment> \<open>literal text or \<^verbatim>\<open>{s}\<close> of a string\<close>
  | N int           \<comment> \<open>\<^verbatim>\<open>{i}\<close> of an integer\<close>
  | D02 int         \<comment> \<open>\<^verbatim>\<open>{i:02d}\<close>\<close>
  | F2 real         \<comment> \<open>\<^verbatim>\<open>{x:.2f}\<close>\<close>
  | F8_2 real       \<comment> \<open>\<^verbatim>\<open>{x:8.2f}\<close>\<close>
  | W20 string      \<comment> \<open>\<^verbatim>\<open>{s:20}\<close>\<close>

type_synonym line = "frag list"

subsection \<open>Dates and times of the standard library\<close>

record datetime =
  year :: int
  month :: int
  day :: int
  hour :: int
  minute :: int
  second :: int
  microsecond :: int

definition is_leap :: "int \<Rightarrow> bool" where
  "is_leap y = (y mod 4 = 0 \<and> (y mod 100 \<noteq> 0 \<or> y mod 400 = 0))"

definition days_in_month :: "int \<Rightarrow> int \<Rightarrow> int" where
  "days_in_month y m =
     (if m = 2 then (if is_leap y then 29 else 28)
      else if m = 4 \<or> m = 6 \<or> m = 9 \<or> m = 11 then 30 else 31)"

definition c_int_max :: int where
  "c_int_max = 2 ^ 31 - 1"

definition fits_c_int :: "int \<Rightarrow> bool" where
  "fits_c_int i = (- c_int_max - 1 \<le> i \<and> i \<le> c_int_max)"

fun digits_of :: "nat \<Rightarrow> string" where
  "digits_of n =
     (if n < 10 then [''0123456789'' ! n]
      else digits_of (n div 10) @ [''0123456789'' ! (n mod 10)])"

declare digits_of.simps [simp del]

definition py_str :: "int \<Rightarrow> string" where
  "py_str i = (if i < 0 then CHR ''-'' # digits_of (nat (- i)) else digits_of (nat i))"

text \<open>
  \<^verbatim>\<open>datetime.datetime(year, month, day)\<close>: the arguments are converted to C integers
  (\<^verbatim>\<open>OverflowError\<close>), then checked against the calendar (\<^verbatim>\<open>ValueError\<close>, with the
  texts of CPython's C implementation); the time of day is midnight.
\<close>

definition datetime_new :: "int \<Rightarrow> int \<Rightarrow> int \<Rightarrow> exn + datetime" where
  "datetime_new y m d =
     (if \<not> (fits_c_int y \<and> fits_c_int m \<and> fits_c_int d)
      then Inl (OverflowError ''Python int too large to convert to C int'')
      else if y < 1 \<or> y > 9999
      then Inl (ValueError (''year '' @ py_str y @ '' is out of range''))
      else if m < 1 \<or> m > 12
      then Inl (ValueError ''month must be in 1..12'')
      else if d < 1 \<or> d > days_in_month y m
      then Inl (ValueError ''day is out of range for month'')
      else Inr \<lparr>year = y, month = m, day = d,
                 hour = 0, minute = 0, second = 0, microsecond = 0\<rparr>)"

text \<open>Comparison of naive datetimes: lexicographic on the seven fields.\<close>

fun lex_gt :: "int list \<Rightarrow> int list \<Rightarrow> bool" where
  "lex_gt (a # as) (b # bs) = (a > b \<or> (a = b \<and> lex_gt as bs))"
| "lex_gt _ _ = False"

definition dt_fields :: "datetime \<Rightarrow> int list" where
  "dt_fields t = [year t, month t, day t, hour t, minute t, second t, microsecond t]"

definition dt_gt :: "datetime \<Rightarrow> datetime \<Rightarrow> bool" where
  "dt_gt a b = lex_gt (dt_fields a) (dt_fields b)"

fun zero_pad :: "nat \<Rightarrow> string \<Rightarrow> string" where
  "zero_pad w s = replicate (w - length s) CHR ''0'' @ s"

text \<open>\<^verbatim>\<open>strftime("%Y-%m-%d")\<close>: the year in four digits, month and day in two.\<close>

definition strftime_ymd :: "datetime \<Rightarrow> string" where
  "strftime_ymd t =
     zero_pad 4 (py_str (year t)) @ ''-'' @ zero_pad 2 (py_str (month t)) @ ''-''
       @ zero_pad 2 (py_str (day t))"

subsection \<open>Strings: \<^verbatim>\<open>str.split\<close>, \<^verbatim>\<open>int\<close>, \<^verbatim>\<open>re.match\<close>\<close>

definition is_digit :: "char \<Rightarrow> bool" where
  "is_digit c = (c \<in> set ''0123456789'')"

definition digit_val :: "char \<Rightarrow> int" where
  "digit_val c = int (of_char c) - 48"

definition py_isspace :: "char \<Rightarrow> bool" where
  "py_isspace c =
     (c \<in> set [CHR 0x09, CHR 0x0A, CHR 0x0B, CHR 0x0C, CHR 0x0D, CHR 0x1C, CHR 0x1D,
               CHR 0x1E, CHR 0x1F, CHR 0x20, CHR 0x85, CHR 0xA0])"

definition py_strip :: "string \<Rightarrow> string" where
  "py_strip s = rev (dropWhile py_isspace (rev (dropWhile py_isspace s)))"

text \<open>\<^verbatim>\<open>s.split(sep)\<close> for a one-character separator.\<close>

fun split_acc :: "char \<Rightarrow> string \<Rightarrow> string \<Rightarrow> string list" where
  "split_acc sep acc [] = [rev acc]"
| "split_acc sep acc (c # cs) =
     (if c = sep then rev acc # split_acc sep [] cs else split_acc sep (c # acc) cs)"

definition py_split :: "char \<Rightarrow> string \<Rightarrow> string list" where
  "py_split sep s = split_acc sep [] s"

text \<open>
  \<^verbatim>\<open>int(s)\<close> in base 10: surrounding whitespace is stripped, a sign may come first, and
  digits may be grouped by single underscores.
\<close>

fun scan_digits :: "int \<Rightarrow> string \<Rightarrow> int option" where
  "scan_digits acc [] = Some acc"
| "scan_digits acc (c # cs) =
     (if is_digit c then scan_digits (10 * acc + digit_val c) cs
      else if c = CHR ''_'' then
        (case cs of
           [] \<Rightarrow> None
         | d # ds \<Rightarrow> if is_digit d then scan_digits (10 * acc + digit_val d) ds else None)
      else None)"

definition unsigned_literal :: "string \<Rightarrow> int option" where
  "unsigned_literal s =
     (case s of
        [] \<Rightarrow> None
      | c # cs \<Rightarrow> if is_digit c then scan_digits (digit_val c) cs else None)"

definition py_repr :: "string \<Rightarrow> string" where
  \<comment> \<open>\<^verbatim>\<open>repr\<close> of a string without quotes, backslashes or control characters\<close>
  "py_repr s = [CHR 0x27] @ s @ [CHR 0x27]"

definition py_int :: "string \<Rightarrow> exn + int" where
  "py_int s =
     (let t = py_strip s;
          parsed =
            (case t of
               [] \<Rightarrow> None
             | c # cs \<Rightarrow>
                 if c = CHR ''-'' then map_option uminus (unsigned_literal cs)
                 else if c = CHR ''+'' then unsigned_literal cs
                 else unsigned_literal t)
      in case parsed of
           None \<Rightarrow> Inl (ValueError (''invalid literal for int() with base 10: '' @ py_repr s))
         | Some i \<Rightarrow> Inr i)"

text \<open>
  \<^verbatim>\<open>year, month, day = map(int, parts)\<close>: the lazy map is consumed element by element;
  a fourth element is converted before the unpacking complains about it.
\<close>

definition unpack3_int :: "string list \<Rightarrow> exn + (int \<times> int \<times> int)" where
  "unpack3_int parts =
     (case parts of
        [] \<Rightarrow> Inl (ValueError ''not enough values to unpack (expected 3, got 0)'')
      | a # r1 \<Rightarrow>
        (case py_int a of Inl e \<Rightarrow> Inl e | Inr y \<Rightarrow>
          (case r1 of
             [] \<Rightarrow> Inl (ValueError ''not enough values to unpack (expected 3, got 1)'')
           | b # r2 \<Rightarrow>
             (case py_int b of Inl e \<Rightarrow> Inl e | Inr m \<Rightarrow>
               (case r2 of
                  [] \<Rightarrow> Inl (ValueError ''not enough values to unpack (expected 3, got 2)'')
                | c # r3 \<Rightarrow>
                  (case py_int c of Inl e \<Rightarrow> Inl e | Inr d \<Rightarrow>
                    (case r3 of
                       [] \<Rightarrow> Inr (y, m, d)
                     | x # r4 \<Rightarrow>
                       (case py_int x of Inl e \<Rightarrow> Inl e | Inr v \<Rightarrow>
                          Inl (ValueError ''too many values to unpack (expected 3)'')))))))))"

text \<open>
  The pattern \<^verbatim>\<open>^\d{4}-\d{2}-\d{2}$\<close> is a fixed sequence of one-character atoms, so
  matching is a single left-to-right pass. Without \<^verbatim>\<open>re.MULTILINE\<close>, \<^verbatim>\<open>$\<close> matches at
  the end of the string and also just before a newline that ends the string.
\<close>

datatype atom = Digit | Lit char

fun atom_ok :: "atom \<Rightarrow> char \<Rightarrow> bool" where
  "atom_ok Digit c = is_digit c"
| "atom_ok (Lit l) c = (c = l)"

fun match_atoms :: "atom list \<Rightarrow> string \<Rightarrow> string option" where
  "match_atoms [] s = Some s"
| "match_atoms (a # as) [] = None"
| "match_atoms (a # as) (c # cs) = (if atom_ok a c then match_atoms as cs else None)"

definition at_dollar :: "string \<Rightarrow> bool" where
  "at_dollar rest = (rest = [] \<or> rest = [CHR 0x0A])"

definition date_pattern :: "atom list" where
  "date_pattern =
     replicate 4 Digit @ [Lit CHR ''-''] @ replicate 2 Digit @ [Lit CHR ''-'']
       @ replicate 2 Digit"

definition re_match_date :: "string \<Rightarrow> bool" where
  "re_match_date s = (case match_atoms date_pattern s of None \<Rightarrow> False | Some rest \<Rightarrow> at_dollar rest)"

subsection \<open>\<^verbatim>\<open>validate_date\<close>\<close>

definition months_with_30_days :: "int list" where
  "months_with_30_days = [4, 6, 9, 11]"

definition february_check :: "int \<Rightarrow> int \<Rightarrow> int \<Rightarrow> (bool \<times> string) option" where
  \<comment> \<open>the block \<^verbatim>\<open>if month == 2:\<close>; \<open>Some r\<close> when it returns \<open>r\<close>\<close>
  "february_check y m d =
     (if m = 2 then
        (let max_days = (if (y mod 4 = 0 \<and> y mod 100 \<noteq> 0) \<or> y mod 400 = 0 then 29 else 28)
         in if d > max_days
            then Some (False, ''February '' @ py_str y @ '' has only '' @ py_str max_days @ '' days'')
            else None)
      else None)"

definition validate_date_try :: "datetime \<Rightarrow> string \<Rightarrow> exn + (bool \<times> string)" where
  \<comment> \<open>the body of the \<^verbatim>\<open>try\<close>\<close>
  "validate_date_try now date_string =
     (if \<not> re_match_date date_string
      then Inr (False, ''Date must be in YYYY-MM-DD format (e.g., 2024-01-15)'')
      else
        (case unpack3_int (py_split CHR ''-'' date_string) of
           Inl e \<Rightarrow> Inl e
         | Inr (y, m, d) \<Rightarrow>
             if m < 1 \<or> m > 12 then Inr (False, ''Month must be between 1 and 12'')
             else if d < 1 \<or> d > 31 then Inr (False, ''Day must be between 1 and 31'')
             else if m \<in> set months_with_30_days \<and> d > 30
             then Inr (False, ''Month '' @ py_str m @ '' has only 30 days'')
             else
               (case february_check y m d of
                  Some r \<Rightarrow> Inr r
                | None \<Rightarrow>
                    (case datetime_new y m d of
                       Inl e \<Rightarrow> Inl e
                     | Inr date_obj \<Rightarrow>
                         if dt_gt date_obj now
                         then Inr (False, ''Date cannot be in the future!'')
                         else Inr (True, ''Valid date'')))))"

definition validate_date :: "datetime \<Rightarrow> string \<Rightarrow> exn + (bool \<times> string)" where
  \<comment> \<open>\<^verbatim>\<open>except ValueError as e\<close>: any other exception escapes\<close>
  "validate_date now date_string =
     (case validate_date_try now date_string of
        Inl (ValueError msg) \<Rightarrow> Inr (False, ''Invalid date: '' @ msg)
      | Inl e \<Rightarrow> Inl e
      | Inr r \<Rightarrow> Inr r)"

subsection \<open>\<^verbatim>\<open>datetime.strptime(s, "%Y-%m-%d")\<close>\<close>

text \<open>
  The library turns the format into the regular expression
  \<^verbatim>\<open>(\d\d\d\d)-(1[0-2]|0[1-9]|[1-9])-(3[01]|[12]\d|0[1-9]|[1-9]| [1-9])\<close>, matches it at the
  start of the string (the first alternative that matches wins, and nothing after a
  group can make an earlier choice fail where a later one would succeed), refuses
  unconverted text after the match, and builds the date from the three numbers.
\<close>

definition char_in :: "char \<Rightarrow> string \<Rightarrow> bool" where
  "char_in c cs = (c \<in> set cs)"

fun strp_year :: "string \<Rightarrow> (int \<times> string) option" where
  "strp_year (a # b # c # d # rest) =
     (if is_digit a \<and> is_digit b \<and> is_digit c \<and> is_digit d
      then Some (1000 * digit_val a + 100 * digit_val b + 10 * digit_val c + digit_val d, rest)
      else None)"
| "strp_year _ = None"

fun strp_month :: "string \<Rightarrow> (int \<times> string) option" where
  "strp_month (a # b # rest) =
     (if a = CHR ''1'' \<and> char_in b ''012'' then Some (10 + digit_val b, rest)
      else if a = CHR ''0'' \<and> char_in b ''123456789'' then Some (digit_val b, rest)
      else if char_in a ''123456789'' then Some (digit_val a, b # rest)
      else None)"
| "strp_month [a] = (if char_in a ''123456789'' then Some (digit_val a, []) else None)"
| "strp_month [] = None"

fun strp_day :: "string \<Rightarrow> (int \<times> string) option" where
  "strp_day (a # b # rest) =
     (if a = CHR ''3'' \<and> char_in b ''01'' then Some (30 + digit_val b, rest)
      else if char_in a ''12'' \<and> is_digit b then Some (10 * digit_val a + digit_val b, rest)
      else if a = CHR ''0'' \<and> char_in b ''123456789'' then Some (digit_val b, rest)
      else if char_in a ''123456789'' then Some (digit_val a, b # rest)
      else if a = CHR '' '' \<and> char_in b ''123456789'' then Some (digit_val b, rest)
      else None)"
| "strp_day [a] = (if char_in a ''123456789'' then Some (digit_val a, []) else None)"
| "strp_day [] = None"

fun strp_dash :: "string \<Rightarrow> string option" where
  "strp_dash (c # rest) = (if c = CHR ''-'' then Some rest else None)"
| "strp_dash [] = None"

definition strp_mismatch :: "string \<Rightarrow> exn" where
  "strp_mismatch s =
     ValueError (''time data '' @ py_repr s @ '' does not match format '' @ py_repr ''%Y-%m-%d'')"

definition strptime_ymd :: "string \<Rightarrow> exn + datetime" where
  "strptime_ymd s =
     (case strp_year s of None \<Rightarrow> Inl (strp_mismatch s) | Some (y, r1) \<Rightarrow>
      (case strp_dash r1 of None \<Rightarrow> Inl (strp_mismatch s) | Some r2 \<Rightarrow>
       (case strp_month r2 of None \<Rightarrow> Inl (strp_mismatch s) | Some (m, r3) \<Rightarrow>
        (case strp_dash r3 of None \<Rightarrow> Inl (strp_mismatch s) | Some r4 \<Rightarrow>
         (case strp_day r4 of None \<Rightarrow> Inl (strp_mismatch s) | Some (d, r5) \<Rightarrow>
            if r5 \<noteq> [] then Inl (ValueError (''unconverted data remains: '' @ r5))
            else datetime_new y m d)))))"

subsection \<open>The store: class \<^verbatim>\<open>BudgetTracker\<close>\<close>

record transaction =
  amount :: real
  description :: string
  category :: string
  date :: string

record tracker =
  transactions :: "transaction list"
  categories :: "string set"

definition init :: tracker where
  "init = \<lparr>transactions = [], categories = {}\<rparr>"

definition add_transaction ::
  "datetime \<Rightarrow> tracker \<Rightarrow> real \<Rightarrow> string \<Rightarrow> string \<Rightarrow> string option \<Rightarrow> line list \<times> tracker"
where
  "add_transaction now self amt descr cat date_arg =
     (let dat = (case date_arg of None \<Rightarrow> strftime_ymd now | Some s \<Rightarrow> s);
          trans = \<lparr>amount = amt, description = descr, category = cat, date = dat\<rparr>
      in ([[S ''Added: '', S descr, S '' - $'', F2 amt, S '' on '', S dat]],
          \<lparr>transactions = transactions self @ [trans],
           categories = insert cat (categories self)\<rparr>))"

text \<open>One call of \<^verbatim>\<open>add_transaction\<close> with its arguments and the clock it reads.\<close>

record add_call =
  at_time :: datetime
  arg_amount :: real
  arg_description :: string
  arg_category :: string
  arg_date :: "string option"

definition do_call :: "tracker \<Rightarrow> add_call \<Rightarrow> tracker" where
  "do_call self c =
     snd (add_transaction (at_time c) self (arg_amount c) (arg_description c)
            (arg_category c) (arg_date c))"

definition run_calls :: "tracker \<Rightarrow> add_call list \<Rightarrow> tracker" where
  "run_calls self cs = foldl do_call self cs"

definition income_transactions :: "transaction list \<Rightarrow> transaction list" where
  "income_transactions ts = [t. t \<leftarrow> ts, amount t > 0]"

definition expense_transactions :: "transaction list \<Rightarrow> transaction list" where
  "expense_transactions ts = [t. t \<leftarrow> ts, amount t < 0]"

definition transaction_line :: "nat \<times> transaction \<Rightarrow> line" where
  "transaction_line p =
     (case p of (i, t) \<Rightarrow>
        [N (int i), S ''. '', S (date t), S '' | '', W20 (description t), S '' | $'',
         F8_2 (amount t), S '' | '', S (category t)])"

definition view_transactions :: "tracker \<Rightarrow> line list" where
  "view_transactions self =
     (if transactions self = [] then [[S ''No transactions recorded yet!'']]
      else
        (let income = income_transactions (transactions self);
             expense = expense_transactions (transactions self)
         in [[S (CHR 0x0A # '' ALL TRANSACTIONS'')], [S (replicate 50 CHR ''-'')]]
            @ [[S (CHR 0x0A # ''--- INCOME ---'')]]
            @ (if income \<noteq> [] then map transaction_line (enumerate 1 income)
               else [[S ''No income recorded yet!'']])
            @ [[S (CHR 0x0A # ''--- EXPENSES ---'')]]
            @ (if expense \<noteq> [] then map transaction_line (enumerate 1 expense)
               else [[S ''No expenses recorded yet!'']])))"

text \<open>The builtin \<^verbatim>\<open>sum\<close>: starts from 0 and adds from the left.\<close>

definition py_sum :: "real list \<Rightarrow> real" where
  "py_sum xs = foldl (+) 0 xs"

definition get_balance :: "tracker \<Rightarrow> line list \<times> real" where
  "get_balance self =
     (let total_income = py_sum [amount t. t \<leftarrow> transactions self, amount t > 0];
          total_expenses = py_sum [amount t. t \<leftarrow> transactions self, amount t < 0];
          balance = total_income + total_expenses
      in ([[S (CHR 0x0A # '' FINANCIAL SUMMARY'')], [S (replicate 30 CHR ''-'')],
           [S ''Total Income: $'', F2 total_income],
           [S ''Total Expenses: $'', F2 (- total_expenses)],
           [S ''Current Balance: $'', F2 balance],
           (if balance < 0 then [S '' WARNING: You are spending more than you earn!'']
            else if balance < total_income * 0.1 then [S '' TIP: Try to save more for emergencies!'']
            else [S '' Great! You're saving money!''])],
          balance))"

text \<open>
  A \<^verbatim>\<open>dict\<close> keeps its keys in insertion order: an association list with distinct keys,
  where assigning to a present key updates its entry in place and assigning to a new key
  appends the entry.
\<close>

type_synonym totals = "(string \<times> real) list"

fun dict_set :: "totals \<Rightarrow> string \<Rightarrow> real \<Rightarrow> totals" where
  "dict_set [] k v = [(k, v)]"
| "dict_set (p # ps) k v = (if fst p = k then (k, v) # ps else p # dict_set ps k v)"

definition dict_contains :: "totals \<Rightarrow> string \<Rightarrow> bool" where
  "dict_contains d k = (map_of d k \<noteq> None)"

definition dict_get :: "totals \<Rightarrow> string \<Rightarrow> exn + real" where
  "dict_get d k = (case map_of d k of None \<Rightarrow> Inl (KeyError k) | Some v \<Rightarrow> Inr v)"

text \<open>The loop of \<^verbatim>\<open>spending_by_category\<close> over the transactions, from the dictionary so far.\<close>

fun category_totals_loop :: "totals \<Rightarrow> transaction list \<Rightarrow> exn + totals" where
  "category_totals_loop d [] = Inr d"
| "category_totals_loop d (t # ts) =
     (if amount t < 0 then
        (let d1 = (if \<not> dict_contains d (category t) then dict_set d (category t) 0 else d)
         in case dict_get d1 (category t) of
              Inl e \<Rightarrow> Inl e
            | Inr v \<Rightarrow> category_totals_loop (dict_set d1 (category t) (v + \<bar>amount t\<bar>)) ts)
      else category_totals_loop d ts)"

definition category_line :: "string \<times> real \<Rightarrow> line" where
  "category_line p = (case p of (cat, tot) \<Rightarrow> [S cat, S '': $'', F2 tot])"

definition spending_by_category :: "tracker \<Rightarrow> exn + line list" where
  "spending_by_category self =
     (if transactions self = [] then Inr [[S ''No transactions to analyze!'']]
      else
        (case category_totals_loop [] (transactions self) of
           Inl e \<Rightarrow> Inl e
         | Inr category_totals \<Rightarrow>
             Inr ([[S (CHR 0x0A # '' SPENDING BY CATEGORY'')], [S (replicate 25 CHR ''-'')]]
                  @ map category_line category_totals)))"

text \<open>The entries a report lists: the lines of the shape \<^verbatim>\<open>{category}: ${total:.2f}\<close>.\<close>

fun entry_of :: "line \<Rightarrow> (string \<times> real) option" where
  "entry_of [S cat, S sep, F2 tot] = (if sep = '': $'' then Some (cat, tot) else None)"
| "entry_of _ = None"

definition reported_totals :: "line list \<Rightarrow> totals" where
  "reported_totals out = List.map_filter entry_of out"

subsection \<open>\<^verbatim>\<open>view_transactions_by_month\<close>\<close>

text \<open>The loop that fills \<^verbatim>\<open>month_transactions\<close>; \<^verbatim>\<open>strptime\<close> may raise.\<close>

fun month_filter :: "int \<Rightarrow> int \<Rightarrow> transaction list \<Rightarrow> transaction list \<Rightarrow> exn + transaction list" where
  "month_filter target_month target_year acc [] = Inr acc"
| "month_filter target_month target_year acc (t # ts) =
     (case strptime_ymd (date t) of
        Inl e \<Rightarrow> Inl e
      | Inr trans_date \<Rightarrow>
          if month trans_date = target_month \<and> year trans_date = target_year
          then month_filter target_month target_year (acc @ [t]) ts
          else month_filter target_month target_year acc ts)"

definition month_transactions :: "transaction list \<Rightarrow> int \<Rightarrow> int \<Rightarrow> exn + transaction list" where
  "month_transactions ts target_month target_year = month_filter target_month target_year [] ts"

text \<open>
  The function after its prompt loop has fixed \<^verbatim>\<open>target_month\<close> and \<^verbatim>\<open>target_year\<close>;
  the loop itself only reads the console and is not modelled. With no transactions the
  function returns before prompting.
\<close>

definition view_transactions_by_month :: "tracker \<Rightarrow> int \<Rightarrow> int \<Rightarrow> exn + line list" where
  "view_transactions_by_month self target_month target_year =
     (if transactions self = [] then Inr [[S ''No transactions recorded yet!'']]
      else
        (case month_transactions (transactions self) target_month target_year of
           Inl e \<Rightarrow> Inl e
         | Inr selected \<Rightarrow>
             if selected = []
             then Inr [[S (CHR 0x0A # ''No transactions found for ''), D02 target_month, S ''-'',
                        N target_year]]
             else
               (let income = income_transactions selected;
                    expense = expense_transactions selected;
                    monthly_income = py_sum [amount t. t \<leftarrow> selected, amount t > 0];
                    monthly_expenses = py_sum [amount t. t \<leftarrow> selected, amount t < 0];
                    monthly_balance = monthly_income + monthly_expenses
                in Inr ([[S (CHR 0x0A # '' TRANSACTIONS FOR ''), D02 target_month, S ''-'', N target_year],
                         [S (replicate 50 CHR ''-'')]]
                        @ [[S (CHR 0x0A # ''--- INCOME ---'')]]
                        @ (if income \<noteq> [] then map transaction_line (enumerate 1 income)
                           else [[S ''No income for this month!'']])
                        @ [[S (CHR 0x0A # ''--- EXPENSES ---'')]]
                        @ (if expense \<noteq> [] then map transaction_line (enumerate 1 expense)
                           else [[S ''No expenses for this month!'']])
                        @ [[S (CHR 0x0A # '' MONTHLY SUMMARY'')], [S (replicate 20 CHR ''-'')],
                           [S ''Income: $'', F2 monthly_income],
                           [S ''Expenses: $'', F2 (- monthly_expenses)],
                           [S ''Balance: $'', F2 monthly_balance]]))))"

section \<open>Notions of the specification\<close>

text \<open>A wall-clock reading used in the examples: 3 November 2026, 12:30.\<close>

definition example_now :: datetime where
  "example_now = \<lparr>year = 2026, month = 11, day = 3,
                   hour = 12, minute = 30, second = 0, microsecond = 0\<rparr>"


text \<open>The record one call of \<^verbatim>\<open>add_transaction\<close> is to store.\<close>

definition stored_record :: "add_call \<Rightarrow> transaction" where
  "stored_record c =
     \<lparr>amount = arg_amount c, description = arg_description c, category = arg_category c,
      date = (case arg_date c of None \<Rightarrow> strftime_ymd (at_time c) | Some s \<Rightarrow> s)\<rparr>"

text \<open>A stored date string parses; it parses to a given month and year.\<close>

definition parses :: "string \<Rightarrow> bool" where
  "parses s = (case strptime_ymd s of Inl e \<Rightarrow> False | Inr dt \<Rightarrow> True)"

definition parses_to :: "string \<Rightarrow> int \<Rightarrow> int \<Rightarrow> bool" where
  "parses_to s m y = (case strptime_ymd s of Inl e \<Rightarrow> False | Inr dt \<Rightarrow> month dt = m \<and> year dt = y)"

text \<open>A session of four calls, the third with a zero amount.\<close>

definition example_calls :: "add_call list" where
  "example_calls =
     [\<lparr>at_time = example_now, arg_amount = 100, arg_description = ''Salary'',
        arg_category = ''Income'', arg_date = None\<rparr>,
      \<lparr>at_time = example_now, arg_amount = - 50, arg_description = ''Rent'',
        arg_category = ''Housing'', arg_date = None\<rparr>,
      \<lparr>at_time = example_now, arg_amount = 0, arg_description = ''Voucher'',
        arg_category = ''Gifts'', arg_date = Some ''2026-10-31''\<rparr>,
      \<lparr>at_time = example_now, arg_amount = - 20, arg_description = ''Water'',
        arg_category = ''Housing'', arg_date = Some ''2025-11-30''\<rparr>]"

definition example_store :: tracker where
  "example_store = run_calls init example_calls"


text \<open>A store whose only record carries a date in another notation.\<close>

definition slash_date_store :: "transaction list" where
  "slash_date_store =
     [\<lparr>amount = - 12, description = ''Lunch'', category = ''Food'', date = ''03/11/2026''\<rparr>]"

subsection \<open>The rules of the date validator\<close>

text \<open>
  The fields of a date string by position: four digits, a hyphen, two digits, a hyphen,
  two digits.
\<close>

definition digits_value :: "string \<Rightarrow> int" where
  "digits_value s = foldl (\<lambda>acc c. 10 * acc + digit_val c) 0 s"

definition year_field :: "string \<Rightarrow> int" where
  "year_field s = digits_value (take 4 s)"

definition month_field :: "string \<Rightarrow> int" where
  "month_field s = digits_value (take 2 (drop 5 s))"

definition day_field :: "string \<Rightarrow> int" where
  "day_field s = digits_value (take 2 (drop 8 s))"

text \<open>
  A rule looks at the string and either passes (\<open>None\<close>) or fails with its message. The
  validator's result is that of the first rule, in the order of the list, that fails;
  the rules after it are not consulted.
\<close>

type_synonym rule = "string \<Rightarrow> string option"

fun first_failure :: "rule list \<Rightarrow> string \<Rightarrow> bool \<times> string" where
  "first_failure [] s = (True, ''Valid date'')"
| "first_failure (r # rs) s =
     (case r s of Some msg \<Rightarrow> (False, msg) | None \<Rightarrow> first_failure rs s)"

text \<open>
  The first rule is the pattern \<^verbatim>\<open>DDDD-DD-DD\<close> of the specification: the whole string is
  four digits, a hyphen, two digits, a hyphen and two digits.
\<close>

definition ymd_form :: "string \<Rightarrow> bool" where
  "ymd_form s = (match_atoms date_pattern s = Some [])"

definition rule_format :: rule where
  "rule_format s =
     (if ymd_form s then None
      else Some ''Date must be in YYYY-MM-DD format (e.g., 2024-01-15)'')"

definition rule_month :: rule where
  "rule_month s =
     (if 1 \<le> month_field s \<and> month_field s \<le> 12 then None
      else Some ''Month must be between 1 and 12'')"

definition rule_day :: rule where
  "rule_day s =
     (if 1 \<le> day_field s \<and> day_field s \<le> 31 then None
      else Some ''Day must be between 1 and 31'')"

definition rule_30_days :: rule where
  "rule_30_days s =
     (if month_field s \<in> {4, 6, 9, 11} \<and> 30 < day_field s
      then Some (''Month '' @ py_str (month_field s) @ '' has only 30 days'')
      else None)"

definition rule_february :: rule where
  "rule_february s =
     (if month_field s = 2 \<and> (if is_leap (year_field s) then 29 else 28) < day_field s
      then Some (''February '' @ py_str (year_field s) @ '' has only ''
                 @ py_str (if is_leap (year_field s) then 29 else 28) @ '' days'')
      else None)"

definition rule_construction :: rule where
  "rule_construction s =
     (case datetime_new (year_field s) (month_field s) (day_field s) of
        Inl (ValueError msg) \<Rightarrow> Some (''Invalid date: '' @ msg)
      | Inl e \<Rightarrow> None
      | Inr dt \<Rightarrow> None)"

definition rule_future :: "datetime \<Rightarrow> rule" where
  "rule_future now s =
     (case datetime_new (year_field s) (month_field s) (day_field s) of
        Inl e \<Rightarrow> None
      | Inr dt \<Rightarrow> if dt_gt dt now then Some ''Date cannot be in the future!'' else None)"

definition validation_rules :: "datetime \<Rightarrow> rule list" where
  "validation_rules now =
     [rule_format, rule_month, rule_day, rule_30_days, rule_february, rule_construction,
      rule_future now]"

subsection \<open>Valid dates\<close>

text \<open>
  A string in the form YYYY-MM-DD (\<open>ymd_form\<close>) is exactly four digits, a hyphen, two
  digits, a hyphen and two digits. Its fields denote a real calendar date when the year
  is one the calendar of the library has (1 to 9999), the month is 1 to 12 and the day
  exists in that month. A date is after today when it follows the date of the clock
  reading. A clock reading has a time of day that is not negative.
\<close>

definition real_calendar_date :: "int \<Rightarrow> int \<Rightarrow> int \<Rightarrow> bool" where
  "real_calendar_date y m d =
     (1 \<le> y \<and> y \<le> 9999 \<and> 1 \<le> m \<and> m \<le> 12 \<and> 1 \<le> d \<and> d \<le> days_in_month y m)"

definition after_today :: "datetime \<Rightarrow> int \<Rightarrow> int \<Rightarrow> int \<Rightarrow> bool" where
  "after_today now y m d = lex_gt [y, m, d] [year now, month now, day now]"

definition clock_ok :: "datetime \<Rightarrow> bool" where
  "clock_ok now = (0 \<le> hour now \<and> 0 \<le> minute now \<and> 0 \<le> second now \<and> 0 \<le> microsecond now)"

definition valid_ymd :: "string \<Rightarrow> bool" where
  "valid_ymd s =
     (ymd_form s \<and> real_calendar_date (year_field s) (month_field s) (day_field s))"

text \<open>A date followed by a line feed.\<close>

definition newline_date :: string where
  "newline_date = ''2024-01-15'' @ [CHR 0x0A]"

section \<open>Properties\<close>

subsection \<open>List comprehensions and sums\<close>

lemma comprehension_map_filter: "[f t. t \<leftarrow> ts, P t] = map f (filter P ts)"
  by (induction ts) simp_all

lemma comprehension_filter: "[t. t \<leftarrow> ts, P t] = filter P ts"
  by (induction ts) simp_all

lemma foldl_plus_sum_list: "foldl (+) a xs = a + sum_list (xs :: real list)"
  by (induction xs arbitrary: a) simp_all

lemma py_sum_sum_list: "py_sum xs = sum_list xs"
  by (simp add: py_sum_def foldl_plus_sum_list)

subsection \<open>The store\<close>

lemma add_transaction_transactions:
  "transactions (snd (add_transaction now self a d c dt)) =
     transactions self @ [\<lparr>amount = a, description = d, category = c,
        date = (case dt of None \<Rightarrow> strftime_ymd now | Some s \<Rightarrow> s)\<rparr>]"
  by (simp add: add_transaction_def Let_def)

lemma add_transaction_categories:
  "categories (snd (add_transaction now self a d c dt)) = insert c (categories self)"
  by (simp add: add_transaction_def Let_def)

lemma do_call_transactions: "transactions (do_call self c) = transactions self @ [stored_record c]"
  by (simp add: do_call_def stored_record_def add_transaction_transactions)

lemma do_call_categories: "categories (do_call self c) = insert (arg_category c) (categories self)"
  by (simp add: do_call_def add_transaction_categories)

lemma run_calls_transactions:
  "transactions (run_calls self cs) = transactions self @ map stored_record cs"
  unfolding run_calls_def
  by (induction cs arbitrary: self) (simp_all add: do_call_transactions)

lemma run_calls_categories:
  "categories (run_calls self cs) = categories self \<union> arg_category ` set cs"
  unfolding run_calls_def
  by (induction cs arbitrary: self) (auto simp: do_call_categories)

lemma category_stored_record: "category (stored_record c) = arg_category c"
  by (simp add: stored_record_def)

lemma strftime_example_now: "strftime_ymd example_now = ''2026-11-03''"
  by code_simp

lemma example_store_transactions:
  "transactions example_store =
     [\<lparr>amount = 100, description = ''Salary'', category = ''Income'', date = ''2026-11-03''\<rparr>,
      \<lparr>amount = - 50, description = ''Rent'', category = ''Housing'', date = ''2026-11-03''\<rparr>,
      \<lparr>amount = 0, description = ''Voucher'', category = ''Gifts'', date = ''2026-10-31''\<rparr>,
      \<lparr>amount = - 20, description = ''Water'', category = ''Housing'', date = ''2025-11-30''\<rparr>]"
  by (simp add: example_store_def example_calls_def run_calls_transactions init_def
      stored_record_def strftime_example_now)

text \<open>
  Claim C10. Starting from the empty store, after any sequence of \<^verbatim>\<open>add_transaction\<close>
  calls the category set is exactly the set of categories of the stored transactions;
  one call appends exactly one record, built from its arguments, at the end of the
  sequence; and over any further calls the records already stored stay where they are
  (the old sequence is a prefix of the new one, which is longer by one record per call).
\<close>

theorem store_invariant:
  "categories (run_calls init cs) = category ` set (transactions (run_calls init cs))
   \<and> transactions (snd (add_transaction now self a d c dt)) =
       transactions self @ [\<lparr>amount = a, description = d, category = c,
          date = (case dt of None \<Rightarrow> strftime_ymd now | Some s \<Rightarrow> s)\<rparr>]
   \<and> prefix (transactions self) (transactions (run_calls self cs))
   \<and> length (transactions (run_calls self cs)) = length (transactions self) + length cs"
proof -
  have "categories (run_calls init cs) = category ` set (transactions (run_calls init cs))"
    by (simp add: run_calls_categories run_calls_transactions init_def image_image
        category_stored_record)
  moreover have "prefix (transactions self) (transactions (run_calls self cs))"
    by (simp add: run_calls_transactions)
  moreover have "length (transactions (run_calls self cs)) = length (transactions self) + length cs"
    by (simp add: run_calls_transactions)
  ultimately show ?thesis
    by (simp add: add_transaction_transactions)
qed

subsection \<open>Balance\<close>

lemma get_balance_value:
  "snd (get_balance self) =
     sum_list (map amount (filter (\<lambda>t. amount t > 0) (transactions self)))
     + sum_list (map amount (filter (\<lambda>t. amount t < 0) (transactions self)))"
  by (simp add: get_balance_def Let_def py_sum_sum_list comprehension_map_filter)


subsection \<open>Income and expenses\<close>

text \<open>
  Claim C9. The income list holds exactly the transactions with an amount above 0 and the
  expense list exactly those with an amount below 0, both in the original order (each is
  the filtered sequence, hence a subsequence of the input), and a transaction whose
  amount is 0 is in neither list. Both \<^verbatim>\<open>view_transactions\<close> and
  \<^verbatim>\<open>view_transactions_by_month\<close> build their two lists this way.
\<close>

theorem partition_income_expense:
  "income_transactions ts = filter (\<lambda>t. amount t > 0) ts
   \<and> expense_transactions ts = filter (\<lambda>t. amount t < 0) ts
   \<and> subseq (income_transactions ts) ts
   \<and> subseq (expense_transactions ts) ts
   \<and> (\<forall>t. amount t = 0 \<longrightarrow>
         t \<notin> set (income_transactions ts) \<and> t \<notin> set (expense_transactions ts))"
  by (simp add: income_transactions_def expense_transactions_def comprehension_filter)

theorem partition_income_expense_witness:
  "income_transactions (transactions example_store) =
     [\<lparr>amount = 100, description = ''Salary'', category = ''Income'', date = ''2026-11-03''\<rparr>]
   \<and> expense_transactions (transactions example_store) =
     [\<lparr>amount = - 50, description = ''Rent'', category = ''Housing'', date = ''2026-11-03''\<rparr>,
      \<lparr>amount = - 20, description = ''Water'', category = ''Housing'', date = ''2025-11-30''\<rparr>]
   \<and> amount \<lparr>amount = 0, description = ''Voucher'', category = ''Gifts'', date = ''2026-10-31''\<rparr> = 0
   \<and> \<lparr>amount = 0, description = ''Voucher'', category = ''Gifts'', date = ''2026-10-31''\<rparr>
        \<notin> set (income_transactions (transactions example_store))
   \<and> \<lparr>amount = 0, description = ''Voucher'', category = ''Gifts'', date = ''2026-10-31''\<rparr>
        \<notin> set (expense_transactions (transactions example_store))"
  using partition_income_expense [of "transactions example_store"]
  by (simp add: example_store_transactions)

subsection \<open>Spending by category\<close>
















subsection \<open>The empty store\<close>

text \<open>
  Claim C3. With no transactions recorded every query ends normally with its neutral
  result: \<^verbatim>\<open>get_balance\<close> returns 0; \<^verbatim>\<open>spending_by_category\<close> prints its notice and no
  entry, and its loop leaves the empty dictionary; the month filter returns the empty
  list, and \<^verbatim>\<open>view_transactions_by_month\<close> prints its notice.
\<close>

theorem empty_store_queries:
  "transactions self = [] \<Longrightarrow>
     snd (get_balance self) = 0
   \<and> spending_by_category self = Inr [[S ''No transactions to analyze!'']]
   \<and> reported_totals [[S ''No transactions to analyze!'']] = []
   \<and> category_totals_loop [] (transactions self) = Inr []
   \<and> month_transactions (transactions self) m y = Inr []
   \<and> view_transactions_by_month self m y = Inr [[S ''No transactions recorded yet!'']]"
  by (simp add: get_balance_value spending_by_category_def reported_totals_def map_filter_simps
      month_transactions_def view_transactions_by_month_def)

theorem empty_store_queries_witness:
  "transactions init = []
   \<and> snd (get_balance init) = 0
   \<and> spending_by_category init = Inr [[S ''No transactions to analyze!'']]
   \<and> reported_totals [[S ''No transactions to analyze!'']] = []
   \<and> category_totals_loop [] (transactions init) = Inr []
   \<and> month_transactions (transactions init) 11 2026 = Inr []
   \<and> view_transactions_by_month init 11 2026 = Inr [[S ''No transactions recorded yet!'']]"
proof -
  have h: "transactions init = []" by (simp add: init_def)
  show ?thesis using h empty_store_queries [OF h, of 11 2026] by simp
qed

subsection \<open>The date validator\<close>

text \<open>What a match of the pattern says about the string.\<close>

lemma match_atoms_step:
  "match_atoms (a # as) s =
     (case s of [] \<Rightarrow> None | c # cs \<Rightarrow> if atom_ok a c then match_atoms as cs else None)"
  by (cases s) simp_all

lemma date_pattern_unfold:
  "date_pattern = [Digit, Digit, Digit, Digit, Lit CHR ''-'', Digit, Digit, Lit CHR ''-'', Digit, Digit]"
  by (simp add: date_pattern_def numeral_eq_Suc)

lemma match_date_pattern_shape:
  "match_atoms date_pattern s = Some r \<longleftrightarrow>
     (\<exists>a b c d e f g h. s = a # b # c # d # CHR ''-'' # e # f # CHR ''-'' # g # h # r
        \<and> is_digit a \<and> is_digit b \<and> is_digit c \<and> is_digit d
        \<and> is_digit e \<and> is_digit f \<and> is_digit g \<and> is_digit h)"
  unfolding date_pattern_unfold
  by (auto simp: match_atoms_step split: list.splits if_splits)

lemma re_match_date_shape:
  "re_match_date s \<longleftrightarrow>
     (\<exists>a b c d e f g h r. s = a # b # c # d # CHR ''-'' # e # f # CHR ''-'' # g # h # r
        \<and> is_digit a \<and> is_digit b \<and> is_digit c \<and> is_digit d
        \<and> is_digit e \<and> is_digit f \<and> is_digit g \<and> is_digit h
        \<and> (r = [] \<or> r = [CHR 0x0A]))"
proof -
  have "re_match_date s \<longleftrightarrow> (\<exists>r. match_atoms date_pattern s = Some r \<and> at_dollar r)"
    by (simp add: re_match_date_def split: option.splits)
  then show ?thesis
    unfolding match_date_pattern_shape at_dollar_def by blast
qed

lemma is_digit_not_special:
  "is_digit c \<Longrightarrow> c \<noteq> CHR ''-'' \<and> c \<noteq> CHR ''+'' \<and> c \<noteq> CHR ''_'' \<and> \<not> py_isspace c"
  by (auto simp: is_digit_def py_isspace_def)

lemma digit_val_range: "is_digit c \<Longrightarrow> 0 \<le> digit_val c \<and> digit_val c \<le> 9"
  by (auto simp: is_digit_def digit_val_def)

lemma py_int_digits4:
  "is_digit a \<Longrightarrow> is_digit b \<Longrightarrow> is_digit c \<Longrightarrow> is_digit d \<Longrightarrow>
   py_int [a, b, c, d] = Inr (1000 * digit_val a + 100 * digit_val b + 10 * digit_val c + digit_val d)"
  using is_digit_not_special [of a] is_digit_not_special [of d]
  by (simp add: py_int_def py_strip_def unsigned_literal_def Let_def)

lemma py_int_digits2:
  "is_digit a \<Longrightarrow> is_digit b \<Longrightarrow> py_int [a, b] = Inr (10 * digit_val a + digit_val b)"
  using is_digit_not_special [of a] is_digit_not_special [of b]
  by (simp add: py_int_def py_strip_def unsigned_literal_def Let_def)

lemma py_int_digits2_newline:
  "is_digit a \<Longrightarrow> is_digit b \<Longrightarrow> py_int [a, b, CHR 0x0A] = Inr (10 * digit_val a + digit_val b)"
  using is_digit_not_special [of a] is_digit_not_special [of b]
  by (simp add: py_int_def py_strip_def unsigned_literal_def Let_def py_isspace_def)

lemma py_split_date:
  "is_digit a \<Longrightarrow> is_digit b \<Longrightarrow> is_digit c \<Longrightarrow> is_digit d \<Longrightarrow>
   is_digit e \<Longrightarrow> is_digit f \<Longrightarrow> is_digit g \<Longrightarrow> is_digit h \<Longrightarrow>
   \<forall>x \<in> set r. x \<noteq> CHR ''-'' \<Longrightarrow>
   py_split CHR ''-'' (a # b # c # d # CHR ''-'' # e # f # CHR ''-'' # g # h # r)
     = [[a, b, c, d], [e, f], g # h # r]"
proof -
  have tail: "split_acc CHR ''-'' acc r = [rev acc @ r]" if "\<forall>x \<in> set r. x \<noteq> CHR ''-''" for acc
    using that by (induction r arbitrary: acc) simp_all
  assume "is_digit a" "is_digit b" "is_digit c" "is_digit d"
    "is_digit e" "is_digit f" "is_digit g" "is_digit h" "\<forall>x \<in> set r. x \<noteq> CHR ''-''"
  then show ?thesis
    using is_digit_not_special [of a] is_digit_not_special [of b] is_digit_not_special [of c]
      is_digit_not_special [of d] is_digit_not_special [of e] is_digit_not_special [of f]
      is_digit_not_special [of g] is_digit_not_special [of h]
    by (simp add: py_split_def tail)
qed


lemma fields_of_shape:
  "year_field (a # b # c # d # x # e # f # y # g # h # r) =
     1000 * digit_val a + 100 * digit_val b + 10 * digit_val c + digit_val d"
  "month_field (a # b # c # d # x # e # f # y # g # h # r) = 10 * digit_val e + digit_val f"
  "day_field (a # b # c # d # x # e # f # y # g # h # r) = 10 * digit_val g + digit_val h"
  by (simp_all add: year_field_def month_field_def day_field_def digits_value_def)

lemma unpack_after_match:
  assumes "re_match_date s"
  shows "unpack3_int (py_split CHR ''-'' s) = Inr (year_field s, month_field s, day_field s)"
proof -
  from assms obtain a b c d e f g h r where
    s: "s = a # b # c # d # CHR ''-'' # e # f # CHR ''-'' # g # h # r" and
    dig: "is_digit a" "is_digit b" "is_digit c" "is_digit d"
         "is_digit e" "is_digit f" "is_digit g" "is_digit h" and
    r: "r = [] \<or> r = [CHR 0x0A]"
    unfolding re_match_date_shape by blast
  have "\<forall>x \<in> set r. x \<noteq> CHR ''-''" using r by auto
  then have split: "py_split CHR ''-'' s = [[a, b, c, d], [e, f], g # h # r]"
    unfolding s using dig by (intro py_split_date)
  have last: "py_int (g # h # r) = Inr (10 * digit_val g + digit_val h)"
    using r dig by (auto simp: py_int_digits2 py_int_digits2_newline)
  show ?thesis
    unfolding split
    by (simp add: unpack3_int_def py_int_digits4 py_int_digits2 last dig)
      (simp add: s fields_of_shape)
qed

lemma fields_range:
  assumes "re_match_date s"
  shows "0 \<le> year_field s \<and> year_field s \<le> 9999
       \<and> 0 \<le> month_field s \<and> month_field s \<le> 99
       \<and> 0 \<le> day_field s \<and> day_field s \<le> 99"
proof -
  from assms obtain a b c d e f g h r where
    s: "s = a # b # c # d # CHR ''-'' # e # f # CHR ''-'' # g # h # r" and
    dig: "is_digit a" "is_digit b" "is_digit c" "is_digit d"
         "is_digit e" "is_digit f" "is_digit g" "is_digit h"
    unfolding re_match_date_shape by blast
  show ?thesis
    unfolding s fields_of_shape
    using dig [THEN digit_val_range] by linarith
qed

lemma mod_400_mod_4: "(y::int) mod 400 = 0 \<Longrightarrow> y mod 4 = 0"
proof -
  assume h: "y mod 400 = 0"
  have "(4::int) dvd 400" by simp
  then have "y mod 400 mod 4 = y mod 4" by (rule mod_mod_cancel)
  with h show ?thesis by simp
qed

lemma is_leap_code: "((y mod 4 = 0 \<and> y mod 100 \<noteq> 0) \<or> y mod 400 = 0) = is_leap y"
  unfolding is_leap_def using mod_400_mod_4 [of y] by auto

lemma datetime_new_cases:
  "fits_c_int y \<Longrightarrow> fits_c_int m \<Longrightarrow> fits_c_int d \<Longrightarrow>
   (\<exists>msg. datetime_new y m d = Inl (ValueError msg)) \<or> (\<exists>dt. datetime_new y m d = Inr dt)"
  by (simp add: datetime_new_def)

lemma validate_date_try_parsed:
  assumes "re_match_date s"
  shows "validate_date_try now s =
     (if month_field s < 1 \<or> month_field s > 12 then Inr (False, ''Month must be between 1 and 12'')
      else if day_field s < 1 \<or> day_field s > 31 then Inr (False, ''Day must be between 1 and 31'')
      else if month_field s \<in> set months_with_30_days \<and> day_field s > 30
      then Inr (False, ''Month '' @ py_str (month_field s) @ '' has only 30 days'')
      else
        (case february_check (year_field s) (month_field s) (day_field s) of
           Some r \<Rightarrow> Inr r
         | None \<Rightarrow>
             (case datetime_new (year_field s) (month_field s) (day_field s) of
                Inl e \<Rightarrow> Inl e
              | Inr date_obj \<Rightarrow>
                  if dt_gt date_obj now
                  then Inr (False, ''Date cannot be in the future!'')
                  else Inr (True, ''Valid date''))))"
  using assms by (simp add: validate_date_try_def unpack_after_match)

lemma february_check_rule:
  "february_check y m d =
     (if m = 2 \<and> (if is_leap y then 29 else 28) < d
      then Some (False, ''February '' @ py_str y @ '' has only ''
                 @ py_str (if is_leap y then 29 else 28) @ '' days'')
      else None)"
  by (simp add: february_check_def is_leap_code Let_def)

text \<open>
  What the code does: its own pattern check first, then the remaining rules in their
  order.
\<close>

lemma validate_date_cascade:
  "validate_date now s =
     Inr (if re_match_date s then first_failure (tl (validation_rules now)) s
          else (False, ''Date must be in YYYY-MM-DD format (e.g., 2024-01-15)''))"
proof (cases "re_match_date s")
  case False
  then show ?thesis
    by (simp add: validate_date_def validate_date_try_def)
next
  case True
  note body = validate_date_try_parsed [OF True]
  have fits: "fits_c_int (year_field s)" "fits_c_int (month_field s)" "fits_c_int (day_field s)"
    using fields_range [OF True] by (simp_all add: fits_c_int_def c_int_max_def)
  consider
      (month) "month_field s < 1 \<or> month_field s > 12"
    | (day) "1 \<le> month_field s" "month_field s \<le> 12" "day_field s < 1 \<or> day_field s > 31"
    | (thirty) "1 \<le> month_field s" "month_field s \<le> 12" "1 \<le> day_field s" "day_field s \<le> 31"
        "month_field s \<in> {4, 6, 9, 11}" "30 < day_field s"
    | (february) "1 \<le> month_field s" "month_field s \<le> 12" "1 \<le> day_field s" "day_field s \<le> 31"
        "\<not> (month_field s \<in> {4, 6, 9, 11} \<and> 30 < day_field s)"
        "month_field s = 2" "(if is_leap (year_field s) then 29 else 28) < day_field s"
    | (rest) "1 \<le> month_field s" "month_field s \<le> 12" "1 \<le> day_field s" "day_field s \<le> 31"
        "\<not> (month_field s \<in> {4, 6, 9, 11} \<and> 30 < day_field s)"
        "\<not> (month_field s = 2 \<and> (if is_leap (year_field s) then 29 else 28) < day_field s)"
    by linarith
  then show ?thesis
  proof cases
    case month
    then show ?thesis
      by (auto simp: validate_date_def body validation_rules_def True rule_month_def)
  next
    case day
    then show ?thesis
      by (auto simp: validate_date_def body validation_rules_def True rule_month_def rule_day_def)
  next
    case thirty
    then show ?thesis
      by (auto simp: validate_date_def body validation_rules_def True rule_month_def rule_day_def
          rule_30_days_def months_with_30_days_def)
  next
    case february
    then show ?thesis
      by (simp add: validate_date_def body validation_rules_def True rule_month_def rule_day_def
          rule_30_days_def months_with_30_days_def rule_february_def february_check_rule)
  next
    case rest
    have none: "february_check (year_field s) (month_field s) (day_field s) = None"
      using rest by (auto simp: february_check_rule)
    have r5: "rule_february s = None"
      using rest by (auto simp: rule_february_def)
    have r4: "rule_30_days s = None"
      using rest by (auto simp: rule_30_days_def)
    have r3: "rule_day s = None" and r2: "rule_month s = None"
      using rest by (auto simp: rule_day_def rule_month_def)
    have body': "validate_date_try now s =
        (case datetime_new (year_field s) (month_field s) (day_field s) of
           Inl e \<Rightarrow> Inl e
         | Inr date_obj \<Rightarrow>
             if dt_gt date_obj now
             then Inr (False, ''Date cannot be in the future!'')
             else Inr (True, ''Valid date''))"
      using rest by (auto simp: body none months_with_30_days_def)
    from datetime_new_cases [OF fits] show ?thesis
    proof (elim disjE exE)
      fix msg assume "datetime_new (year_field s) (month_field s) (day_field s) = Inl (ValueError msg)"
      then show ?thesis
        by (simp add: validate_date_def body' validation_rules_def True r2 r3 r4 r5
            rule_construction_def)
    next
      fix dt assume "datetime_new (year_field s) (month_field s) (day_field s) = Inr dt"
      then show ?thesis
        by (simp add: validate_date_def body' validation_rules_def True r2 r3 r4 r5
            rule_construction_def rule_future_def)
    qed
  qed
qed


lemma first_failure_True:
  "first_failure rs s = (True, msg) \<longleftrightarrow> msg = ''Valid date'' \<and> list_all (\<lambda>r. r s = None) rs"
  by (induction rs) (auto split: option.splits)

lemma first_failure_cases:
  "first_failure rs s = (ok, msg) \<Longrightarrow>
   (ok \<and> msg = ''Valid date'') \<or> (\<not> ok \<and> (\<exists>r \<in> set rs. r s = Some msg))"
  by (induction rs) (auto split: option.splits)

lemma rule_message_nonempty:
  "r \<in> set (validation_rules now) \<Longrightarrow> r s = Some msg \<Longrightarrow> msg \<noteq> []"
  by (auto simp: validation_rules_def rule_format_def rule_month_def rule_day_def
      rule_30_days_def rule_february_def rule_construction_def rule_future_def
      split: if_splits sum.splits exn.splits)

lemma validate_date_returns:
  "\<exists>ok msg. validate_date now s = Inr (ok, msg) \<and> msg \<noteq> []"
proof (cases "re_match_date s")
  case False
  then have "validate_date now s =
      Inr (False, ''Date must be in YYYY-MM-DD format (e.g., 2024-01-15)'')"
    by (simp add: validate_date_cascade)
  then show ?thesis
    by blast
next
  case True
  obtain ok msg where ff: "first_failure (tl (validation_rules now)) s = (ok, msg)"
    by (cases "first_failure (tl (validation_rules now)) s")
  have "set (tl (validation_rules now)) \<subseteq> set (validation_rules now)"
    by (simp add: validation_rules_def)
  with first_failure_cases [OF ff] have "msg \<noteq> []"
    by (auto dest: rule_message_nonempty)
  then show ?thesis
    using True by (simp add: validate_date_cascade ff)
qed

lemma validate_date_try_raises:
  assumes "validate_date_try now s = Inl e"
  shows "\<exists>m. e = ValueError m \<and> validate_date now s = Inr (False, ''Invalid date: '' @ m)"
proof -
  have m: "re_match_date s"
    using assms by (auto simp: validate_date_try_def split: if_splits)
  have fits: "fits_c_int (year_field s)" "fits_c_int (month_field s)" "fits_c_int (day_field s)"
    using fields_range [OF m] by (simp_all add: fits_c_int_def c_int_max_def)
  from assms have "datetime_new (year_field s) (month_field s) (day_field s) = Inl e"
    unfolding validate_date_try_parsed [OF m]
    by (auto split: if_splits option.splits sum.splits)
  with datetime_new_cases [OF fits] obtain msg where "e = ValueError msg"
    by auto
  then show ?thesis
    using assms by (simp add: validate_date_def)
qed

lemma year_zero: "validate_date now ''0000-01-01'' = Inr (False, ''Invalid date: year 0 is out of range'')"
  unfolding validate_date_cascade by code_simp

lemma year_zero_try: "validate_date_try now ''0000-01-01'' = Inl (ValueError ''year 0 is out of range'')"
  by code_simp

lemma dt_gt_midnight:
  "clock_ok now \<Longrightarrow>
   dt_gt \<lparr>year = y, month = m, day = d, hour = 0, minute = 0, second = 0, microsecond = 0\<rparr> now
     = after_today now y m d"
  by (auto simp: dt_gt_def dt_fields_def after_today_def clock_ok_def)

lemma days_in_month_le_31: "days_in_month y m \<le> 31"
  by (simp add: days_in_month_def)

lemma datetime_new_real:
  "fits_c_int y \<Longrightarrow> fits_c_int m \<Longrightarrow> fits_c_int d \<Longrightarrow>
   datetime_new y m d =
     (if real_calendar_date y m d
      then Inr \<lparr>year = y, month = m, day = d, hour = 0, minute = 0, second = 0, microsecond = 0\<rparr>
      else Inl (ValueError (if y < 1 \<or> y > 9999 then ''year '' @ py_str y @ '' is out of range''
                            else if m < 1 \<or> m > 12 then ''month must be in 1..12''
                            else ''day is out of range for month'')))"
  by (auto simp: datetime_new_def real_calendar_date_def)

lemma validate_date_accepts_iff:
  assumes "clock_ok now"
  shows "validate_date now s = Inr (True, msg) \<longleftrightarrow>
     msg = ''Valid date'' \<and> re_match_date s
     \<and> real_calendar_date (year_field s) (month_field s) (day_field s)
     \<and> \<not> after_today now (year_field s) (month_field s) (day_field s)"
proof (cases "re_match_date s")
  case False
  then show ?thesis
    by (simp add: validate_date_cascade)
next
  case True
  have fits: "fits_c_int (year_field s)" "fits_c_int (month_field s)" "fits_c_int (day_field s)"
    using fields_range [OF True] by (simp_all add: fits_c_int_def c_int_max_def)
  note new = datetime_new_real [OF fits]
  show ?thesis
  proof (cases "real_calendar_date (year_field s) (month_field s) (day_field s)")
    case False
    then show ?thesis
      using True
      by (simp add: validate_date_cascade first_failure_True validation_rules_def
          rule_construction_def new del: first_failure.simps)
  next
    case real: True
    then have "rule_month s = None" "rule_day s = None" "rule_30_days s = None"
      "rule_february s = None"
      using days_in_month_le_31 [of "year_field s" "month_field s"]
      by (auto simp: rule_month_def rule_day_def rule_30_days_def rule_february_def
          real_calendar_date_def days_in_month_def split: if_splits)
    then show ?thesis
      using True real assms
      by (auto simp: validate_date_cascade first_failure_True validation_rules_def
          rule_construction_def rule_future_def new dt_gt_midnight
          simp del: first_failure.simps)
  qed
qed

lemma ymd_form_match: "ymd_form s \<Longrightarrow> re_match_date s"
  by (simp add: ymd_form_def re_match_date_def at_dollar_def)

lemma valid_dates_accepted:
  "clock_ok now \<Longrightarrow> ymd_form s \<Longrightarrow>
   real_calendar_date (year_field s) (month_field s) (day_field s) \<Longrightarrow>
   \<not> after_today now (year_field s) (month_field s) (day_field s) \<Longrightarrow>
   validate_date now s = Inr (True, ''Valid date'')"
  by (simp add: validate_date_accepts_iff ymd_form_match)

lemma future_dates_rejected:
  "clock_ok now \<Longrightarrow> after_today now (year_field s) (month_field s) (day_field s) \<Longrightarrow>
   \<exists>msg. validate_date now s = Inr (False, msg)"
  using validate_date_returns [of now s] validate_date_accepts_iff [of now s]
  by (metis (full_types))

lemma validate_date_examples:
  "validate_date now ''2023-02-29'' = Inr (False, ''February 2023 has only 28 days'')"
  "validate_date now ''2024-02-30'' = Inr (False, ''February 2024 has only 29 days'')"
  "validate_date example_now ''2024-02-29'' = Inr (True, ''Valid date'')"
  "validate_date example_now ''2026-11-03'' = Inr (True, ''Valid date'')"
  "validate_date example_now ''2026-11-04'' = Inr (False, ''Date cannot be in the future!'')"
  unfolding validate_date_cascade by code_simp+

lemma validate_date_rule_examples:
  "validate_date now ''15/01/2024'' =
     Inr (False, ''Date must be in YYYY-MM-DD format (e.g., 2024-01-15)'')"
  "validate_date now ''2024-13-5'' =
     Inr (False, ''Date must be in YYYY-MM-DD format (e.g., 2024-01-15)'')"
  "validate_date now ''2024-13-45'' = Inr (False, ''Month must be between 1 and 12'')"
  "validate_date now ''2024-12-45'' = Inr (False, ''Day must be between 1 and 31'')"
  "validate_date now ''2024-04-31'' = Inr (False, ''Month 4 has only 30 days'')"
  unfolding validate_date_cascade by code_simp+

text \<open>
  The pattern check of the code and the pattern of the specification differ on exactly
  the strings in the form YYYY-MM-DD followed by one line feed; on every other string
  the code returns what the first failing rule of the specification says.
\<close>

lemma re_match_date_forms:
  "re_match_date s \<longleftrightarrow> ymd_form s \<or> (\<exists>d. ymd_form d \<and> s = d @ [CHR 0x0A])"
proof
  assume "re_match_date s"
  then obtain a b c d e f g h r where
    s: "s = a # b # c # d # CHR ''-'' # e # f # CHR ''-'' # g # h # r" and
    dig: "is_digit a" "is_digit b" "is_digit c" "is_digit d"
         "is_digit e" "is_digit f" "is_digit g" "is_digit h" and
    r: "r = [] \<or> r = [CHR 0x0A]"
    unfolding re_match_date_shape by blast
  have form: "ymd_form [a, b, c, d, CHR ''-'', e, f, CHR ''-'', g, h]"
    unfolding ymd_form_def match_date_pattern_shape using dig by blast
  from r show "ymd_form s \<or> (\<exists>d. ymd_form d \<and> s = d @ [CHR 0x0A])"
  proof
    assume "r = []"
    then show ?thesis using form s by simp
  next
    assume "r = [CHR 0x0A]"
    then have "s = [a, b, c, d, CHR ''-'', e, f, CHR ''-'', g, h] @ [CHR 0x0A]"
      using s by simp
    then show ?thesis using form by blast
  qed
next
  assume "ymd_form s \<or> (\<exists>d. ymd_form d \<and> s = d @ [CHR 0x0A])"
  then show "re_match_date s"
  proof
    assume "ymd_form s"
    then show ?thesis by (rule ymd_form_match)
  next
    assume "\<exists>d. ymd_form d \<and> s = d @ [CHR 0x0A]"
    then obtain d where d: "ymd_form d" and s: "s = d @ [CHR 0x0A]"
      by blast
    from d have "match_atoms date_pattern s = Some [CHR 0x0A]"
      unfolding ymd_form_def match_date_pattern_shape s by auto
    then show ?thesis
      by (simp add: re_match_date_def at_dollar_def)
  qed
qed

lemma validate_date_order_on_form:
  assumes "re_match_date s \<longrightarrow> ymd_form s"
  shows "validate_date now s = Inr (first_failure (validation_rules now) s)"
proof (cases "re_match_date s")
  case True
  then have "rule_format s = None"
    using assms by (simp add: rule_format_def)
  then have "first_failure (validation_rules now) s = first_failure (tl (validation_rules now)) s"
    by (simp add: validation_rules_def)
  then show ?thesis
    using True by (simp add: validate_date_cascade)
next
  case False
  then have "\<not> ymd_form s"
    using ymd_form_match by blast
  then have "first_failure (validation_rules now) s =
      (False, ''Date must be in YYYY-MM-DD format (e.g., 2024-01-15)'')"
    by (simp add: validation_rules_def rule_format_def)
  then show ?thesis
    using False by (simp add: validate_date_cascade)
qed

text \<open>
  Claim C4. The rules are to be applied in the order format pattern, month range, day
  range, 30-day months, February, date construction, future date, and the first rule
  that fails gives the message. The code does so on every string except a date followed
  by a line feed (\<open>validate_date_order_on_form\<close>, \<open>re_match_date_forms\<close>). On
  \<^verbatim>\<open>"2024-13-45\n"\<close> it does not: the string is not in the pattern \<^verbatim>\<open>DDDD-DD-DD\<close>, so the
  first failing rule is the format rule, but the code lets the string pass its pattern
  check and returns the message of the month rule.
\<close>

theorem validate_date_skips_format_rule:
  "\<not> ymd_form (''2024-13-45'' @ [CHR 0x0A])
   \<and> first_failure (validation_rules now) (''2024-13-45'' @ [CHR 0x0A]) =
       (False, ''Date must be in YYYY-MM-DD format (e.g., 2024-01-15)'')
   \<and> validate_date now (''2024-13-45'' @ [CHR 0x0A]) =
       Inr (False, ''Month must be between 1 and 12'')"
proof (intro conjI)
  show "\<not> ymd_form (''2024-13-45'' @ [CHR 0x0A])"
    unfolding ymd_form_def by code_simp
  show "first_failure (validation_rules now) (''2024-13-45'' @ [CHR 0x0A]) =
       (False, ''Date must be in YYYY-MM-DD format (e.g., 2024-01-15)'')"
    unfolding validation_rules_def rule_format_def ymd_form_def by code_simp
  show "validate_date now (''2024-13-45'' @ [CHR 0x0A]) =
       Inr (False, ''Month must be between 1 and 12'')"
    unfolding validate_date_cascade by code_simp
qed

text \<open>
  Claim C6. For every string \<^verbatim>\<open>validate_date\<close> returns a pair of a truth value and a
  message that is not empty; no exception escapes. Whenever the body of its \<^verbatim>\<open>try\<close>
  raises, the exception is a \<^verbatim>\<open>ValueError\<close> and the result is \<^verbatim>\<open>False\<close> with the message
  \<^verbatim>\<open>Invalid date: \<close> followed by the text of the exception; the year 0000, which passes
  every earlier check, ends so.
\<close>

theorem validate_date_total:
  "(\<exists>ok msg. validate_date now s = Inr (ok, msg) \<and> msg \<noteq> [])
   \<and> (\<forall>e. validate_date_try now s = Inl e \<longrightarrow>
         (\<exists>m. e = ValueError m \<and> validate_date now s = Inr (False, ''Invalid date: '' @ m)))
   \<and> validate_date now ''0000-01-01'' = Inr (False, ''Invalid date: year 0 is out of range'')"
  using validate_date_returns [of now s] validate_date_try_raises [of now s] year_zero [of now]
  by blast

theorem validate_date_total_witness:
  "validate_date_try example_now ''0000-01-01'' = Inl (ValueError ''year 0 is out of range'')
   \<and> validate_date example_now ''0000-01-01'' =
       Inr (False, ''Invalid date: year 0 is out of range'')"
  using validate_date_total [of example_now "''0000-01-01''"] year_zero_try [of example_now]
  by simp

text \<open>
  Claim C5. The validator accepts every string in the form YYYY-MM-DD that denotes a
  real calendar date not after today (\<open>valid_dates_accepted\<close>), rejects every date after
  today (\<open>future_dates_rejected\<close>) and decides the dates of the claim as it says
  (\<open>validate_date_examples\<close>). It does not accept exactly those strings: \<^verbatim>\<open>$\<close> in the
  pattern also matches before a final line feed and \<^verbatim>\<open>int\<close> strips it, so a valid date
  followed by a line feed, which is not in the form YYYY-MM-DD, is accepted as well
  (\<open>validate_date_accepts_iff\<close> has the strings that are accepted). The same string, once
  stored, makes the month view raise.
\<close>

theorem validate_date_accepts_trailing_newline:
  "\<not> ymd_form newline_date
   \<and> validate_date example_now newline_date = Inr (True, ''Valid date'')
   \<and> strptime_ymd newline_date = Inl (ValueError (''unconverted data remains: '' @ [CHR 0x0A]))"
  unfolding newline_date_def ymd_form_def by code_simp

subsection \<open>The date a call stores\<close>

text \<open>The decimal digits \<^verbatim>\<open>strftime\<close> writes, and the fields they read back as.\<close>

lemma below_ten: "(k::nat) < 10 \<Longrightarrow> k \<in> {0, 1, 2, 3, 4, 5, 6, 7, 8, 9}"
  by auto

lemma digit_char:
  assumes "k < 10"
  shows "is_digit (''0123456789'' ! k)" and "digit_val (''0123456789'' ! k) = int k"
  using below_ten [OF assms] by (auto simp: is_digit_def digit_val_def)

lemma digits_of_1: "n < 10 \<Longrightarrow> digits_of n = [''0123456789'' ! n]"
  by (simp add: digits_of.simps)

lemma digits_of_2:
  "10 \<le> n \<Longrightarrow> n < 100 \<Longrightarrow> digits_of n = [''0123456789'' ! (n div 10), ''0123456789'' ! (n mod 10)]"
  by (subst digits_of.simps) (simp add: digits_of_1 less_mult_imp_div_less)

lemma digits_of_3:
  "100 \<le> n \<Longrightarrow> n < 1000 \<Longrightarrow>
   digits_of n = [''0123456789'' ! (n div 100), ''0123456789'' ! (n div 10 mod 10),
                  ''0123456789'' ! (n mod 10)]"
  by (subst digits_of.simps) (simp add: digits_of_2 less_mult_imp_div_less div_mult2_eq [symmetric])

lemma digits_of_4:
  "1000 \<le> n \<Longrightarrow> n < 10000 \<Longrightarrow>
   digits_of n = [''0123456789'' ! (n div 1000), ''0123456789'' ! (n div 100 mod 10),
                  ''0123456789'' ! (n div 10 mod 10), ''0123456789'' ! (n mod 10)]"
  by (subst digits_of.simps) (simp add: digits_of_3 less_mult_imp_div_less div_mult2_eq [symmetric])

lemma replicate_small:
  "replicate (Suc 0) c = [c]" "replicate 2 c = [c, c]" "replicate 3 c = [c, c, c]"
  by (simp_all add: numeral_2_eq_2 numeral_3_eq_3)

lemma zero_pad_2:
  "n < 100 \<Longrightarrow>
   zero_pad 2 (digits_of n) = [''0123456789'' ! (n div 10), ''0123456789'' ! (n mod 10)]"
  by (cases "n < 10") (simp_all add: digits_of_1 digits_of_2 replicate_small)

lemma zero_pad_4:
  assumes "n < 10000"
  shows "zero_pad 4 (digits_of n) =
     [''0123456789'' ! (n div 1000), ''0123456789'' ! (n div 100 mod 10),
      ''0123456789'' ! (n div 10 mod 10), ''0123456789'' ! (n mod 10)]"
proof -
  consider "n < 10" | "10 \<le> n" "n < 100" | "100 \<le> n" "n < 1000" | "1000 \<le> n"
    by linarith
  then show ?thesis
  proof cases
    case 1
    then show ?thesis by (simp add: digits_of_1 replicate_small)
  next
    case 2
    then show ?thesis by (simp add: digits_of_2 replicate_small)
  next
    case 3
    then show ?thesis by (simp add: digits_of_3 replicate_small)
  next
    case 4
    then show ?thesis using assms by (simp add: digits_of_4)
  qed
qed


lemma strftime_shape:
  assumes "0 \<le> year t" "year t < 10000" "0 \<le> month t" "month t < 100" "0 \<le> day t" "day t < 100"
  shows "strftime_ymd t =
     [''0123456789'' ! (nat (year t) div 1000), ''0123456789'' ! (nat (year t) div 100 mod 10),
      ''0123456789'' ! (nat (year t) div 10 mod 10), ''0123456789'' ! (nat (year t) mod 10),
      CHR ''-'',
      ''0123456789'' ! (nat (month t) div 10), ''0123456789'' ! (nat (month t) mod 10),
      CHR ''-'',
      ''0123456789'' ! (nat (day t) div 10), ''0123456789'' ! (nat (day t) mod 10)]"
proof -
  have "nat (year t) < 10000" "nat (month t) < 100" "nat (day t) < 100"
    using assms by linarith+
  then show ?thesis
    using assms
    by (simp add: strftime_ymd_def py_str_def zero_pad_4 zero_pad_2 del: zero_pad.simps)
qed

lemma decimal_2: "10 * int (n div 10) + int (n mod 10) = int n"
proof -
  have "int (10 * (n div 10) + n mod 10) = 10 * int (n div 10) + int (n mod 10)"
    by (simp only: of_nat_add of_nat_mult of_nat_numeral)
  then show ?thesis by simp
qed

lemma decimal_4:
  "1000 * int (n div 1000) + 100 * int (n div 100 mod 10) + 10 * int (n div 10 mod 10)
     + int (n mod 10) = int n"
proof -
  define a b c r0 r1 r2 where
    "a = n div 10" and "b = a div 10" and "c = b div 10" and
    "r0 = n mod 10" and "r1 = a mod 10" and "r2 = b mod 10"
  have b: "n div 100 = b"
    using div_mult2_eq [of n 10 10] by (simp add: a_def b_def)
  have c: "n div 1000 = c"
    using div_mult2_eq [of n 100 10] by (simp add: b c_def)
  have "n = 10 * a + r0" "a = 10 * b + r1" "b = 10 * c + r2"
    by (simp_all add: a_def b_def c_def r0_def r1_def r2_def)
  then have "1000 * c + 100 * r2 + 10 * r1 + r0 = n"
    by linarith
  then have "int (1000 * c + 100 * r2 + 10 * r1 + r0) = int n"
    by (rule arg_cong)
  then show ?thesis
    by (simp add: b c a_def [symmetric] r0_def r1_def r2_def)
qed


lemma strftime_fields:
  assumes "0 \<le> year t" "year t < 10000" "0 \<le> month t" "month t < 100" "0 \<le> day t" "day t < 100"
  shows "ymd_form (strftime_ymd t)"
    and "year_field (strftime_ymd t) = year t"
    and "month_field (strftime_ymd t) = month t"
    and "day_field (strftime_ymd t) = day t"
proof -
  note shape = strftime_shape [OF assms]
  have y: "nat (year t) div 1000 < 10" "nat (year t) div 100 mod 10 < 10"
    "nat (year t) div 10 mod 10 < 10" "nat (year t) mod 10 < 10"
    using assms by (simp_all add: less_mult_imp_div_less)
  have m: "nat (month t) div 10 < 10" "nat (month t) mod 10 < 10"
    using assms by (simp_all add: less_mult_imp_div_less)
  have d: "nat (day t) div 10 < 10" "nat (day t) mod 10 < 10"
    using assms by (simp_all add: less_mult_imp_div_less)
  show "ymd_form (strftime_ymd t)"
    unfolding ymd_form_def match_date_pattern_shape shape
    using y m d by (simp add: digit_char)
  show "year_field (strftime_ymd t) = year t"
    unfolding shape fields_of_shape
    using y assms decimal_4 [of "nat (year t)"] by (simp add: digit_char)
  show "month_field (strftime_ymd t) = month t"
    unfolding shape fields_of_shape
    using m assms decimal_2 [of "nat (month t)"] by (simp add: digit_char)
  show "day_field (strftime_ymd t) = day t"
    unfolding shape fields_of_shape
    using d assms decimal_2 [of "nat (day t)"] by (simp add: digit_char)
qed

lemma lex_gt_irrefl: "\<not> lex_gt xs xs"
  by (induction xs) simp_all

lemma default_date_valid:
  assumes "clock_ok now" "real_calendar_date (year now) (month now) (day now)"
  shows "ymd_form (strftime_ymd now)"
    and "validate_date now (strftime_ymd now) = Inr (True, ''Valid date'')"
proof -
  have "day now \<le> 31"
    using assms(2) days_in_month_le_31 [of "year now" "month now"]
    by (simp add: real_calendar_date_def)
  then have r: "0 \<le> year now" "year now < 10000" "0 \<le> month now" "month now < 100"
    "0 \<le> day now" "day now < 100"
    using assms(2) by (simp_all add: real_calendar_date_def)
  note f = strftime_fields [OF r]
  show "ymd_form (strftime_ymd now)" by (rule f)
  show "validate_date now (strftime_ymd now) = Inr (True, ''Valid date'')"
    using assms f
    by (intro valid_dates_accepted) (simp_all add: after_today_def lex_gt_irrefl)
qed

text \<open>
  Claim C7, as the code has it. The default applies when the date argument is absent
  (\<^verbatim>\<open>None\<close>): the stored date is then the current date in the form of
  \<^verbatim>\<open>strftime("%Y-%m-%d")\<close>, a string in the form YYYY-MM-DD that the validator accepts at
  that moment. Every string that is supplied, the empty one included, is stored
  unchanged.
\<close>

theorem add_transaction_date:
  "date (last (transactions (snd (add_transaction now self a d c None)))) = strftime_ymd now
   \<and> date (last (transactions (snd (add_transaction now self a d c (Some s))))) = s
   \<and> (clock_ok now \<and> real_calendar_date (year now) (month now) (day now) \<longrightarrow>
        ymd_form (strftime_ymd now)
        \<and> validate_date now (strftime_ymd now) = Inr (True, ''Valid date''))"
  using default_date_valid [of now] by (simp add: add_transaction_transactions)

theorem add_transaction_date_witness:
  "clock_ok example_now
   \<and> real_calendar_date (year example_now) (month example_now) (day example_now)
   \<and> date (last (transactions
        (snd (add_transaction example_now init 100 ''Salary'' ''Income'' None)))) = ''2026-11-03''
   \<and> date (last (transactions
        (snd (add_transaction example_now init 100 ''Salary'' ''Income'' (Some ''2026-10-31'')))))
       = ''2026-10-31''
   \<and> ymd_form ''2026-11-03''
   \<and> validate_date example_now ''2026-11-03'' = Inr (True, ''Valid date'')"
proof -
  have h: "clock_ok example_now
      \<and> real_calendar_date (year example_now) (month example_now) (day example_now)"
    by code_simp
  show ?thesis
    using h add_transaction_date [of example_now init 100 "''Salary''" "''Income''" "''2026-10-31''"]
    by (simp add: strftime_example_now)
qed

text \<open>
  The claim as stated fails for an empty date string: the test is \<^verbatim>\<open>date is None\<close>, so
  the empty string is stored, not the current date.
\<close>

theorem add_transaction_empty_date_counterexample:
  "date (last (transactions
      (snd (add_transaction example_now init 4 ''Coffee'' ''Food'' (Some []))))) = []
   \<and> date (last (transactions
      (snd (add_transaction example_now init 4 ''Coffee'' ''Food'' (Some [])))))
       \<noteq> strftime_ymd example_now"
  by (simp add: add_transaction_transactions strftime_example_now)

subsection \<open>The month view\<close>

lemma month_filter_result:
  "list_all (\<lambda>t. parses (date t)) ts \<Longrightarrow>
   month_filter m y acc ts = Inr (acc @ filter (\<lambda>t. parses_to (date t) m y) ts)"
  by (induction ts arbitrary: acc) (auto simp: parses_def parses_to_def split: sum.splits)

text \<open>A valid date in the form YYYY-MM-DD parses to the date its fields denote.\<close>

lemma digit_tests:
  assumes "is_digit c"
  shows "(c = CHR ''0'') = (digit_val c = 0)"
    and "(c = CHR ''1'') = (digit_val c = 1)"
    and "(c = CHR ''3'') = (digit_val c = 3)"
    and "char_in c ''01'' = (digit_val c \<le> 1)"
    and "char_in c ''012'' = (digit_val c \<le> 2)"
    and "char_in c ''12'' = (1 \<le> digit_val c \<and> digit_val c \<le> 2)"
    and "char_in c ''123456789'' = (1 \<le> digit_val c)"
  using assms by (auto simp: is_digit_def digit_val_def char_in_def)

lemma strp_month_two_digits:
  assumes "is_digit e" "is_digit f" "1 \<le> 10 * digit_val e + digit_val f"
    "10 * digit_val e + digit_val f \<le> 12"
  shows "strp_month (e # f # rest) = Some (10 * digit_val e + digit_val f, rest)"
proof -
  have "digit_val e = 0 \<and> 1 \<le> digit_val f \<or> digit_val e = 1 \<and> digit_val f \<le> 2"
    using assms digit_val_range [of e] digit_val_range [of f] by linarith
  then show ?thesis
    using assms(1,2) by (auto simp: digit_tests)
qed

lemma strp_day_two_digits:
  assumes "is_digit g" "is_digit h" "1 \<le> 10 * digit_val g + digit_val h"
    "10 * digit_val g + digit_val h \<le> 31"
  shows "strp_day (g # h # rest) = Some (10 * digit_val g + digit_val h, rest)"
proof -
  have "digit_val g = 0 \<and> 1 \<le> digit_val h \<or> 1 \<le> digit_val g \<and> digit_val g \<le> 2
      \<or> digit_val g = 3 \<and> digit_val h \<le> 1"
    using assms digit_val_range [of g] digit_val_range [of h] by linarith
  then show ?thesis
    using assms(1,2) by (auto simp: digit_tests)
qed

lemma strptime_valid_date:
  assumes "ymd_form s" "real_calendar_date (year_field s) (month_field s) (day_field s)"
  shows "strptime_ymd s =
     Inr \<lparr>year = year_field s, month = month_field s, day = day_field s,
          hour = 0, minute = 0, second = 0, microsecond = 0\<rparr>"
proof -
  from assms(1) obtain a b c d e f g h where
    s: "s = [a, b, c, d, CHR ''-'', e, f, CHR ''-'', g, h]" and
    dig: "is_digit a" "is_digit b" "is_digit c" "is_digit d"
         "is_digit e" "is_digit f" "is_digit g" "is_digit h"
    unfolding ymd_form_def match_date_pattern_shape by blast
  have fits: "fits_c_int (year_field s)" "fits_c_int (month_field s)" "fits_c_int (day_field s)"
    using fields_range [OF ymd_form_match [OF assms(1)]] by (simp_all add: fits_c_int_def c_int_max_def)
  have md: "1 \<le> month_field s" "month_field s \<le> 12" "1 \<le> day_field s" "day_field s \<le> 31"
    using assms(2) days_in_month_le_31 [of "year_field s" "month_field s"]
    by (simp_all add: real_calendar_date_def)
  have mo: "strp_month (e # f # CHR ''-'' # [g, h]) = Some (month_field s, CHR ''-'' # [g, h])"
    using md dig unfolding s fields_of_shape by (intro strp_month_two_digits)
  have da: "strp_day (g # h # []) = Some (day_field s, [])"
    using md dig unfolding s fields_of_shape by (intro strp_day_two_digits)
  have ye: "strp_year s = Some (year_field s, [CHR ''-'', e, f, CHR ''-'', g, h])"
    using dig by (simp add: s fields_of_shape)
  show ?thesis
    using assms(2) mo da
    by (simp add: strptime_ymd_def ye datetime_new_real [OF fits])
qed

lemma valid_date_parses:
  assumes "ymd_form s" "real_calendar_date (year_field s) (month_field s) (day_field s)"
  shows "parses s" and "parses_to s m y \<longleftrightarrow> month_field s = m \<and> year_field s = y"
  by (simp_all add: parses_def parses_to_def strptime_valid_date [OF assms])

lemma valid_dates_filter:
  "list_all (\<lambda>t. valid_ymd (date t)) ts \<Longrightarrow>
   list_all (\<lambda>t. parses (date t)) ts
   \<and> filter (\<lambda>t. parses_to (date t) m y) ts =
       filter (\<lambda>t. month_field (date t) = m \<and> year_field (date t) = y) ts"
  by (induction ts) (auto simp: valid_ymd_def valid_date_parses)

text \<open>
  Claim C8, as the code has it. For every store in which each stored date string parses
  with the format \<^verbatim>\<open>%Y-%m-%d\<close>, and for every month and year, the month filter returns
  exactly the transactions whose date parses to that month and year, in their original
  order (the filtered sequence, a subsequence of the store). Where the stored dates are
  valid dates in the form YYYY-MM-DD, these are the transactions whose month and year
  fields are the ones asked for.
\<close>

theorem month_transactions_filter:
  "(list_all (\<lambda>t. parses (date t)) ts \<longrightarrow>
      month_transactions ts m y = Inr (filter (\<lambda>t. parses_to (date t) m y) ts)
      \<and> subseq (filter (\<lambda>t. parses_to (date t) m y) ts) ts)
   \<and> (list_all (\<lambda>t. valid_ymd (date t)) ts \<longrightarrow>
      month_transactions ts m y =
        Inr (filter (\<lambda>t. month_field (date t) = m \<and> year_field (date t) = y) ts))"
  using valid_dates_filter [of ts m y]
  by (simp add: month_transactions_def month_filter_result)

lemma example_store_valid: "list_all (\<lambda>t. valid_ymd (date t)) (transactions example_store)"
  unfolding example_store_transactions valid_ymd_def ymd_form_def by code_simp

lemma example_store_parses: "list_all (\<lambda>t. parses (date t)) (transactions example_store)"
  unfolding example_store_transactions by code_simp

lemma example_store_november:
  "map (\<lambda>t. parses_to (date t) 11 2026) (transactions example_store) = [True, True, False, False]"
  unfolding example_store_transactions by code_simp

theorem month_transactions_filter_witness:
  "list_all (\<lambda>t. parses (date t)) (transactions example_store)
   \<and> list_all (\<lambda>t. valid_ymd (date t)) (transactions example_store)
   \<and> month_transactions (transactions example_store) 11 2026 =
       Inr [\<lparr>amount = 100, description = ''Salary'', category = ''Income'', date = ''2026-11-03''\<rparr>,
            \<lparr>amount = - 50, description = ''Rent'', category = ''Housing'', date = ''2026-11-03''\<rparr>]"
  using month_transactions_filter [of "transactions example_store" 11 2026]
    example_store_november example_store_parses example_store_valid
  by (simp add: example_store_transactions)

text \<open>
  The claim as stated fails for a store with a date that does not parse: the filter
  raises \<^verbatim>\<open>ValueError\<close> instead of leaving the transaction out.
\<close>

theorem month_transactions_bad_date_counterexample:
  "month_transactions slash_date_store 11 2026 = Inl (strp_mismatch ''03/11/2026'')"
  unfolding slash_date_store_def by code_simp

end
